theory Spec2Isabelle
  imports Complex_Main
begin

section \<open>Data model\<close>

text \<open>
  The entities of \<^verbatim>\<open>books.service.ts\<close>. A text is a list of characters, a
  character standing for one unit of a JavaScript string. Identifiers of books are
  assigned by the store; they are opaque to the service and modelled as natural numbers.
  Page numbers and the counters of a book are JavaScript numbers holding integers.
\<close>

type_synonym book_id = nat

record user =
  apiKey :: string
  languageCode :: string
  chunkSize :: int

record book =
  book_id :: book_id
  title :: string
  author :: "string option"
  totalIndex :: int
  lastIndex :: int
  book_user :: user

text \<open>A row of the chunk table: \<^verbatim>\<open>{ book: { id }, index, text }\<close>.\<close>

record chunk_row =
  row_book :: book_id
  row_index :: int
  row_text :: string

text \<open>
  A \<^verbatim>\<open>BooksChunk\<close> as \<^verbatim>\<open>findOne\<close> returns it with
  \<^verbatim>\<open>relations: ['book', 'book.user']\<close>: the row together with its book (and the
  book's user) as they are at the time of the query.
\<close>

record books_chunk =
  chunk_text :: string
  chunk_index :: int
  chunk_book :: book

subsection \<open>ChunkSplitter\<close>

datatype io_op =
  CacheGet | ChunkFindOne | CacheSet | BookUpdate | NextCacheGet | NextGetChunk
  | NextCacheSet | BookInsert | ChunkInsert | BookFindOne | ChunkDelete | BookDelete
  | BookFindAndCount

datatype error = InvalidArgument | StoreError io_op

record split_chunk =
  chunk :: string
  index :: int

record split_result =
  chunks :: "split_chunk list"
  split_totalIndex :: int

text \<open>
  Modelled from the spec: \<^verbatim>\<open>splitEveryN\<close> is imported from \<^verbatim>\<open>@core/utils\<close>,
  which is not among the source files. Section 4.1 of the specification gives its
  chunks: consecutive non-overlapping substrings of exactly \<open>chunkSize\<close> characters,
  the final chunk holding the remainder (between 1 and \<open>chunkSize\<close> characters); indices
  from 0 in steps of 1; an empty text yields exactly one chunk holding the empty string;
  a \<open>chunkSize\<close> of 0 or less is an \<open>InvalidArgument\<close>. Section 4.1 does not describe
  the \<^verbatim>\<open>totalIndex\<close> component that \<^verbatim>\<open>createBook\<close> destructures from the result. The
  specification gives the count that is stored with the document: its \<open>chunkCount\<close> is
  the total number of chunks and at least 1 (section 3), and it is what a page view shows
  as the total page count (section 4.4, step 5; section 8: four chunks, \<open>chunkCount = 4\<close>,
  \<open>totalPage = 4\<close>). \<^verbatim>\<open>createBook\<close> stores \<^verbatim>\<open>totalIndex - 1\<close> (line 54), so
  \<^verbatim>\<open>totalIndex\<close> is the number of chunks plus one. The reader of
  \<^verbatim>\<open>actions.updates.ts\<close> (line 82) takes the stored value for the number of pages as
  well: it shows page \<^verbatim>\<open>currentPage + 1\<close> of \<^verbatim>\<open>totalPage\<close>.
\<close>

function chunksFrom :: "nat \<Rightarrow> int \<Rightarrow> string \<Rightarrow> split_chunk list" where
  "chunksFrom n i t =
     (if n = 0 \<or> length t \<le> n then [\<lparr>chunk = t, index = i\<rparr>]
      else \<lparr>chunk = take n t, index = i\<rparr> # chunksFrom n (i + 1) (drop n t))"
  by pat_completeness auto
termination
  by (relation "measure (\<lambda>(n, i, t). length t)") auto

declare chunksFrom.simps [simp del]

definition splitEveryN :: "string \<Rightarrow> int \<Rightarrow> error + split_result" where
  "splitEveryN str n =
     (if n \<le> 0 then Inl InvalidArgument
      else let cs = chunksFrom (nat n) 0 str
           in Inr \<lparr>chunks = cs, split_totalIndex = int (length cs) + 1\<rparr>)"

subsection \<open>Store, cache and faults\<close>

text \<open>
  The service holds two repositories and a cache. \<^verbatim>\<open>bookRepository\<close> and
  \<^verbatim>\<open>bookChunkRepository\<close> are tables, modelled as lists of rows; \<open>nextId\<close> is the
  store's supply of fresh book identifiers. The cache maps a key to a value and the
  time-to-live argument it was written with (\<open>None\<close> when \<^verbatim>\<open>set\<close> was called
  without one). The key \<^verbatim>\<open>`page_${id}_${page}`\<close> determines the pair of the
  identifier and the page and is modelled as that pair. \<open>issued\<close> lists every write
  request the service issues to the store or the cache, in order, whether or not the
  request succeeds.
\<close>

type_synonym cache_key = "book_id \<times> int"

record cache_entry =
  entry_value :: books_chunk
  entry_ttl :: "nat option"

datatype write_call =
  BookInsertCall string int
  | ChunkInsertCall "chunk_row list"
  | BookUpdateCall book_id int
  | CacheSetCall cache_key "nat option"
  | ChunkDeleteCall book_id
  | BookDeleteCall book_id

record state =
  bookRepository :: "book list"
  bookChunkRepository :: "chunk_row list"
  cacheManager :: "cache_key \<rightharpoonup> cache_entry"
  nextId :: nat
  issued :: "write_call list"

definition initial :: state where
  "initial = \<lparr>bookRepository = [], bookChunkRepository = [], cacheManager = Map.empty,
     nextId = 0, issued = []\<rparr>"

text \<open>
  What the service does not decide is a parameter: \<open>fails op\<close> says that the promise of
  the store or cache call \<open>op\<close> rejects; \<open>defaultLastIndex\<close> is the value the store
  gives the column \<^verbatim>\<open>lastIndex\<close> of a new book (\<^verbatim>\<open>createBook\<close> does not set it, and
  the entity declaration is not among the sources); \<open>orderByUpdatedAt\<close> is the store's
  ordering of rows by the column \<^verbatim>\<open>updatedAt\<close>, newest first.
\<close>

record env =
  fails :: "io_op \<Rightarrow> bool"
  defaultLastIndex :: int
  orderByUpdatedAt :: "book list \<Rightarrow> book list"

subsection \<open>createBook\<close>

record create_book_dto =
  new_title :: string
  new_author :: "string option"
  bookText :: string
  new_user :: user

text \<open>
  Lines 45 to 71. Two awaited inserts, one after the other: the book, then all its
  chunks in one call. A rejected promise ends the call there with what has been written.
\<close>

definition createBook :: "env \<Rightarrow> state \<Rightarrow> create_book_dto \<Rightarrow> state \<times> (error + book_id)" where
  "createBook env s payload =
     (case splitEveryN (bookText payload) (chunkSize (new_user payload)) of
        Inl e \<Rightarrow> (s, Inl e)
      | Inr sp \<Rightarrow>
          let s1 = s\<lparr>issued := issued s @ [BookInsertCall (new_title payload) (split_totalIndex sp - 1)]\<rparr>
          in if fails env BookInsert then (s1, Inl (StoreError BookInsert))
             else
               let insertedBookId = nextId s1;
                   b = \<lparr>book_id = insertedBookId, title = new_title payload,
                        author = new_author payload, totalIndex = split_totalIndex sp - 1,
                        lastIndex = defaultLastIndex env, book_user = new_user payload\<rparr>;
                   s2 = s1\<lparr>bookRepository := bookRepository s1 @ [b],
                          nextId := Suc (nextId s1)\<rparr>;
                   chunksToInsert =
                     map (\<lambda>c. \<lparr>row_book = insertedBookId, row_index = index c,
                                row_text = chunk c\<rparr>) (chunks sp);
                   s3 = s2\<lparr>issued := issued s2 @ [ChunkInsertCall chunksToInsert]\<rparr>
               in if fails env ChunkInsert then (s3, Inl (StoreError ChunkInsert))
                  else (s3\<lparr>bookChunkRepository := bookChunkRepository s3 @ chunksToInsert\<rparr>,
                        Inr insertedBookId))"

subsection \<open>getPageByBookId\<close>

record get_chunk_dto =
  dto_text :: string
  dto_title :: string
  bookId :: book_id
  currentPage :: int
  totalPage :: int
  userLanguageCode :: string

text \<open>
  The query of lines 84 to 95 and of \<^verbatim>\<open>getChunk\<close> (lines 346 to 359): the chunk of
  book \<open>bid\<close> with index \<open>page\<close>, where the book belongs to the user with this
  \<open>apiKey\<close>; the book and its user are loaded with the chunk. The identifier is the
  primary key of the book table.
\<close>

definition findOneChunk :: "state \<Rightarrow> book_id \<Rightarrow> int \<Rightarrow> string \<Rightarrow> books_chunk option" where
  "findOneChunk s bid page key =
     (case find (\<lambda>b. book_id b = bid \<and> apiKey (book_user b) = key) (bookRepository s) of
        None \<Rightarrow> None
      | Some b \<Rightarrow>
          (case find (\<lambda>r. row_book r = bid \<and> row_index r = page) (bookChunkRepository s) of
             None \<Rightarrow> None
           | Some r \<Rightarrow> Some \<lparr>chunk_text = row_text r, chunk_index = row_index r, chunk_book = b\<rparr>))"

definition getChunk :: "state \<Rightarrow> book_id \<Rightarrow> int \<Rightarrow> string \<Rightarrow> books_chunk option" where
  "getChunk s bid page key = findOneChunk s bid page key"

text \<open>
  \<^verbatim>\<open>cacheManager.set\<close> is called without \<^verbatim>\<open>await\<close>: the request is issued, its
  rejection reaches nobody, and the entry is written when it does not fail.
\<close>

definition cacheSet ::
  "env \<Rightarrow> io_op \<Rightarrow> state \<Rightarrow> cache_key \<Rightarrow> books_chunk \<Rightarrow> nat option \<Rightarrow> state" where
  "cacheSet env op s k v ttl =
     (let s1 = s\<lparr>issued := issued s @ [CacheSetCall k ttl]\<rparr>
      in if fails env op then s1
         else s1\<lparr>cacheManager := (cacheManager s1)(k \<mapsto> \<lparr>entry_value = v, entry_ttl = ttl\<rparr>)\<rparr>)"

text \<open>Lines 79 to 100: the cache first, the store on a miss, and the cache filled.\<close>

definition lookupChunk ::
  "env \<Rightarrow> state \<Rightarrow> book_id \<Rightarrow> int \<Rightarrow> string \<Rightarrow> state \<times> (error + books_chunk option)" where
  "lookupChunk env s bid page key =
     (if fails env CacheGet then (s, Inl (StoreError CacheGet))
      else case cacheManager s (bid, page) of
        Some e \<Rightarrow> (s, Inr (Some (entry_value e)))
      | None \<Rightarrow>
          if fails env ChunkFindOne then (s, Inl (StoreError ChunkFindOne))
          else (case findOneChunk s bid page key of
                  None \<Rightarrow> (s, Inr None)
                | Some c \<Rightarrow> (cacheSet env CacheSet s (bid, page) c (Some 3600), Inr (Some c))))"

text \<open>Lines 106 to 110: the awaited update of \<^verbatim>\<open>lastIndex\<close>.\<close>

definition saveProgress ::
  "env \<Rightarrow> state \<Rightarrow> book_id \<Rightarrow> int \<Rightarrow> books_chunk \<Rightarrow> bool \<Rightarrow> state \<times> (error + unit)" where
  "saveProgress env s bid page c saveCurrentPage =
     (if page \<noteq> lastIndex (chunk_book c) \<and> saveCurrentPage then
        let s1 = s\<lparr>issued := issued s @ [BookUpdateCall bid page]\<rparr>
        in if fails env BookUpdate then (s1, Inl (StoreError BookUpdate))
           else (s1\<lparr>bookRepository :=
                      map (\<lambda>b. if book_id b = bid then b\<lparr>lastIndex := page\<rparr> else b)
                        (bookRepository s1)\<rparr>, Inr ())
      else (s, Inr ()))"

text \<open>Lines 112 to 122: the read-ahead of the next page.\<close>

definition readAhead ::
  "env \<Rightarrow> state \<Rightarrow> book_id \<Rightarrow> int \<Rightarrow> string \<Rightarrow> state \<times> (error + unit)" where
  "readAhead env s bid page key =
     (if fails env NextCacheGet then (s, Inl (StoreError NextCacheGet))
      else case cacheManager s (bid, page + 1) of
        Some e \<Rightarrow> (s, Inr ())
      | None \<Rightarrow>
          if fails env NextGetChunk then (s, Inl (StoreError NextGetChunk))
          else (case getChunk s bid (page + 1) key of
                  None \<Rightarrow> (s, Inr ())
                | Some n \<Rightarrow> (cacheSet env NextCacheSet s (bid, page + 1) n None, Inr ())))"

definition pageView :: "books_chunk \<Rightarrow> int \<Rightarrow> get_chunk_dto" where
  "pageView c page =
     \<lparr>dto_text = chunk_text c, dto_title = title (chunk_book c),
      bookId = book_id (chunk_book c), currentPage = page,
      totalPage = totalIndex (chunk_book c),
      userLanguageCode = languageCode (book_user (chunk_book c))\<rparr>"

definition getPageByBookId ::
  "env \<Rightarrow> state \<Rightarrow> book_id \<Rightarrow> int \<Rightarrow> string \<Rightarrow> bool \<Rightarrow> state \<times> (error + get_chunk_dto option)" where
  "getPageByBookId env s bid page key saveCurrentPage =
     (case lookupChunk env s bid page key of
        (s1, Inl e) \<Rightarrow> (s1, Inl e)
      | (s1, Inr None) \<Rightarrow> (s1, Inr None)
      | (s1, Inr (Some c)) \<Rightarrow>
          (case saveProgress env s1 bid page c saveCurrentPage of
             (s2, Inl e) \<Rightarrow> (s2, Inl e)
           | (s2, Inr u) \<Rightarrow>
               (case readAhead env s2 bid page key of
                  (s3, Inl e) \<Rightarrow> (s3, Inl e)
                | (s3, Inr u) \<Rightarrow> (s3, Inr (Some (pageView c page))))))"

subsection \<open>deleteBookById\<close>

text \<open>
  Lines 265 to 309. The lookup is outside the \<^verbatim>\<open>try\<close>; the two deletes are inside it,
  the chunks first. The cache is not touched.
\<close>

definition deleteBookById ::
  "env \<Rightarrow> state \<Rightarrow> book_id \<Rightarrow> string \<Rightarrow> state \<times> (error + book option \<times> bool)" where
  "deleteBookById env s bid key =
     (if fails env BookFindOne then (s, Inl (StoreError BookFindOne))
      else case find (\<lambda>b. book_id b = bid \<and> apiKey (book_user b) = key) (bookRepository s) of
        None \<Rightarrow> (s, Inr (None, False))
      | Some b \<Rightarrow>
          let s1 = s\<lparr>issued := issued s @ [ChunkDeleteCall bid]\<rparr>
          in if fails env ChunkDelete then (s1, Inr (Some b, False))
             else
               let s2 = s1\<lparr>bookChunkRepository :=
                             filter (\<lambda>r. row_book r \<noteq> bid) (bookChunkRepository s1),
                           issued := issued s1 @ [BookDeleteCall (book_id b)]\<rparr>
               in if fails env BookDelete then (s2, Inr (Some b, False))
                  else (s2\<lparr>bookRepository :=
                             filter (\<lambda>x. book_id x \<noteq> book_id b) (bookRepository s2)\<rparr>,
                        Inr (Some b, True)))"

subsection \<open>getBookById and getAll\<close>

text \<open>
  A JavaScript number that results from dividing two integers and rounding: a rational,
  or one of the values that are not finite. \<open>js_div\<close> is \<^verbatim>\<open>/\<close> on integer operands,
  \<open>math_round\<close> is \<^verbatim>\<open>Math.round\<close> (halves go up), \<open>isFinite\<close> is
  \<^verbatim>\<open>Number.isFinite\<close>.
\<close>

datatype js_number = Num rat | NaN | PosInfinity | NegInfinity

definition js_div :: "int \<Rightarrow> int \<Rightarrow> js_number" where
  "js_div a b =
     (if b = 0 then (if a = 0 then NaN else if 0 < a then PosInfinity else NegInfinity)
      else Num (of_int a / of_int b))"

fun math_round :: "js_number \<Rightarrow> js_number" where
  "math_round (Num q) = Num (of_int \<lfloor>q + 1 / 2\<rfloor>)"
| "math_round x = x"


text \<open>
  The fields of \<^verbatim>\<open>GetBookDto\<close> that depend on the counters of the book. The field
  \<^verbatim>\<open>percent\<close> is the text of a number followed by \<^verbatim>\<open>" %"\<close>; the model keeps the
  number. \<open>percentOf\<close> is the expression of lines 208 and 260.
\<close>

record get_book_dto =
  dto_id :: book_id
  dto_index :: "int option"
  book_currentPage :: int
  book_totalPage :: int
  percent :: js_number

definition percentOf :: "book \<Rightarrow> js_number" where
  "percentOf b = math_round (js_div (100 * lastIndex b) (totalIndex b))"

text \<open>Lines 237 to 263; the result is \<^verbatim>\<open>undefined\<close> when no book is found.\<close>

definition getBookById :: "env \<Rightarrow> state \<Rightarrow> book_id \<Rightarrow> string \<Rightarrow> error + get_book_dto option" where
  "getBookById env s bid key =
     (if fails env BookFindOne then Inl (StoreError BookFindOne)
      else case find (\<lambda>b. book_id b = bid \<and> apiKey (book_user b) = key) (bookRepository s) of
        None \<Rightarrow> Inr None
      | Some b \<Rightarrow>
          Inr (Some \<lparr>dto_id = book_id b, dto_index = None, book_currentPage = lastIndex b,
                     book_totalPage = totalIndex b, percent = percentOf b\<rparr>))"



subsection \<open>Reachable states\<close>

text \<open>
  The states the service can be in: it starts with empty tables and an empty cache, any
  of its operations may run with any faults, and a cache entry may expire at any time.
\<close>

inductive reachable :: "state \<Rightarrow> bool" where
  reachable_initial: "reachable initial"
| reachable_createBook: "reachable s \<Longrightarrow> reachable (fst (createBook env s payload))"
| reachable_getPageByBookId:
    "reachable s \<Longrightarrow> reachable (fst (getPageByBookId env s bid page key saveCurrentPage))"
| reachable_deleteBookById: "reachable s \<Longrightarrow> reachable (fst (deleteBookById env s bid key))"
| reachable_expire: "reachable s \<Longrightarrow> reachable (s\<lparr>cacheManager := (cacheManager s)(k := None)\<rparr>)"

text \<open>\<open>later s t\<close>: the service gets from state \<open>s\<close> to state \<open>t\<close> in any number of steps.\<close>

inductive later :: "state \<Rightarrow> state \<Rightarrow> bool" where
  later_refl: "later s s"
| later_createBook: "later s t \<Longrightarrow> later s (fst (createBook env t payload))"
| later_getPageByBookId:
    "later s t \<Longrightarrow> later s (fst (getPageByBookId env t bid page key saveCurrentPage))"
| later_deleteBookById: "later s t \<Longrightarrow> later s (fst (deleteBookById env t bid key))"
| later_expire: "later s t \<Longrightarrow> later s (t\<lparr>cacheManager := (cacheManager t)(k := None)\<rparr>)"

text \<open>\<open>storedChunks s bid\<close>: the chunk rows of book \<open>bid\<close>, in the order of the table.\<close>

definition storedChunks :: "state \<Rightarrow> book_id \<Rightarrow> chunk_row list" where
  "storedChunks s bid = filter (\<lambda>r. row_book r = bid) (bookChunkRepository s)"

text \<open>
  The invariant of the reachable states: the identifiers in the tables and in the keys of
  the cache are below \<open>nextId\<close>, and no two books share one.
\<close>

definition books_fresh :: "state \<Rightarrow> bool" where
  "books_fresh s \<longleftrightarrow>
     distinct (map book_id (bookRepository s)) \<and>
     (\<forall>b \<in> set (bookRepository s). book_id b < nextId s)"

definition rows_fresh :: "state \<Rightarrow> bool" where
  "rows_fresh s \<longleftrightarrow> (\<forall>r \<in> set (bookChunkRepository s). row_book r < nextId s)"

definition cache_fresh :: "state \<Rightarrow> bool" where
  "cache_fresh s \<longleftrightarrow> (\<forall>bid page e. cacheManager s (bid, page) = Some e \<longrightarrow> bid < nextId s)"

definition state_inv :: "state \<Rightarrow> bool" where
  "state_inv s \<longleftrightarrow> books_fresh s \<and> rows_fresh s \<and> cache_fresh s"

text \<open>
  What stays true of a document \<open>D\<close> that was ingested with \<open>n\<close> chunks, whatever
  happens afterwards: its book record, while stored, carries \<open>n\<close> as \<open>totalIndex\<close>; its
  chunk rows and the pages of it in the cache have an index from 0 to \<open>n - 1\<close>, and a
  cached chunk carries a book record with \<open>n\<close> as \<open>totalIndex\<close>.
\<close>

definition doc_inv :: "book_id \<Rightarrow> int \<Rightarrow> state \<Rightarrow> bool" where
  "doc_inv D n s \<longleftrightarrow>
     D < nextId s \<and>
     (\<forall>b \<in> set (bookRepository s). book_id b = D \<longrightarrow> totalIndex b = n) \<and>
     (\<forall>r \<in> set (bookChunkRepository s). row_book r = D \<longrightarrow> 0 \<le> row_index r \<and> row_index r < n) \<and>
     (\<forall>page e. cacheManager s (D, page) = Some e \<longrightarrow>
        0 \<le> page \<and> page < n \<and> totalIndex (chunk_book (entry_value e)) = n)"

subsection \<open>The write requests of a call\<close>

text \<open>
  \<open>issuedBy s s'\<close> are the write requests issued on the way from \<open>s\<close> to \<open>s'\<close>.
\<close>

definition issuedBy :: "state \<Rightarrow> state \<Rightarrow> write_call list" where
  "issuedBy s s' = drop (length (issued s)) (issued s')"



subsection \<open>The scenario of the specification\<close>

text \<open>
  The text \<open>ABCDEFGHIJ\<close>, uploaded by a user whose chunk size is 3, into the empty
  store; \<open>failing op\<close> is the environment in which exactly the call \<open>op\<close> fails.
\<close>

definition owner :: user where
  "owner = \<lparr>apiKey = ''owner-key'', languageCode = ''en'', chunkSize = 3\<rparr>"

definition no_faults :: env where
  "no_faults = \<lparr>fails = (\<lambda>op. False), defaultLastIndex = 0, orderByUpdatedAt = (\<lambda>bs. bs)\<rparr>"

definition failing :: "io_op \<Rightarrow> env" where
  "failing op = \<lparr>fails = (\<lambda>x. x = op), defaultLastIndex = 0, orderByUpdatedAt = (\<lambda>bs. bs)\<rparr>"

definition upload :: create_book_dto where
  "upload = \<lparr>new_title = ''book.txt'', new_author = None, bookText = ''ABCDEFGHIJ'',
     new_user = owner\<rparr>"

definition ingested :: state where
  "ingested = fst (createBook no_faults initial upload)"

text \<open>The state after the owner has read page \<open>p\<close> of the uploaded book.\<close>

definition after_read :: "int \<Rightarrow> state" where
  "after_read p = fst (getPageByBookId no_faults ingested 0 p ''owner-key'' True)"

text \<open>The state after the owner has read page 0 and then deleted the book.\<close>

definition deleted :: state where
  "deleted = fst (deleteBookById no_faults (after_read 0) 0 ''owner-key'')"

text \<open>
  The state after the owner has read page 0 and a deletion of the book has removed the
  chunks and then failed to remove the book record.
\<close>

definition half_deleted :: state where
  "half_deleted = fst (deleteBookById (failing BookDelete) (after_read 0) 0 ''owner-key'')"



section \<open>The splitter\<close>

lemma chunksFrom_last [simp]:
  "length t \<le> n \<Longrightarrow> chunksFrom n i t = [\<lparr>chunk = t, index = i\<rparr>]"
  by (subst chunksFrom.simps) simp

lemma chunksFrom_step [simp]:
  "0 < n \<Longrightarrow> n < length t \<Longrightarrow>
   chunksFrom n i t = \<lparr>chunk = take n t, index = i\<rparr> # chunksFrom n (i + 1) (drop n t)"
  by (subst chunksFrom.simps) simp

lemma concat_chunksFrom: "concat (map chunk (chunksFrom n i t)) = t"
proof (induction n i t rule: chunksFrom.induct)
  case (1 n i t)
  show ?case
  proof (cases "n = 0 \<or> length t \<le> n")
    case True
    then show ?thesis by (subst chunksFrom.simps) simp
  next
    case False
    with "1.IH" have "concat (map chunk (chunksFrom n (i + 1) (drop n t))) = drop n t"
      by simp
    with False show ?thesis by (subst chunksFrom.simps) simp
  qed
qed


lemma chunksFrom_index:
  "c \<in> set (chunksFrom n i t) \<Longrightarrow> i \<le> index c \<and> index c < i + int (length (chunksFrom n i t))"
proof (induction n i t rule: chunksFrom.induct)
  case (1 n i t)
  show ?case
  proof (cases "n = 0 \<or> length t \<le> n")
    case True
    with "1.prems" show ?thesis by (subst (asm) chunksFrom.simps, subst chunksFrom.simps) auto
  next
    case False
    from False "1.prems" have "c = \<lparr>chunk = take n t, index = i\<rparr> \<or> c \<in> set (chunksFrom n (i + 1) (drop n t))"
      by (subst (asm) chunksFrom.simps) auto
    then show ?thesis
    proof
      assume "c = \<lparr>chunk = take n t, index = i\<rparr>"
      with False show ?thesis by (subst chunksFrom.simps) simp
    next
      assume "c \<in> set (chunksFrom n (i + 1) (drop n t))"
      with "1.IH" False have "i + 1 \<le> index c \<and> index c < i + 1 + int (length (chunksFrom n (i + 1) (drop n t)))"
        by blast
      with False show ?thesis by (subst chunksFrom.simps) simp
    qed
  qed
qed

lemma chunksFrom_indices:
  "map index (chunksFrom n i t) = map (\<lambda>k. i + int k) [0..<length (chunksFrom n i t)]"
proof (induction n i t rule: chunksFrom.induct)
  case (1 n i t)
  show ?case
  proof (cases "n = 0 \<or> length t \<le> n")
    case True
    then show ?thesis by (subst (1 2) chunksFrom.simps) simp
  next
    case False
    let ?rest = "chunksFrom n (i + 1) (drop n t)"
    from False have step: "chunksFrom n i t = \<lparr>chunk = take n t, index = i\<rparr> # ?rest"
      by (subst chunksFrom.simps) simp
    from "1.IH" False
    have "map index ?rest = map (\<lambda>k. i + 1 + int k) [0..<length ?rest]" by simp
    then show ?thesis
      unfolding step by (simp add: map_upt_Suc add.assoc del: upt_Suc)
  qed
qed

lemma sorted_chunksFrom: "sorted (map index (chunksFrom n i t))"
  unfolding chunksFrom_indices
  by (simp add: sorted_map sorted_wrt_iff_nth_less)

text \<open>
  C7. For every text \<open>T\<close> and every chunk size \<open>S > 0\<close>, the split succeeds, the indices
  of its chunks are \<open>0, 1, 2, ...\<close> without a gap or a repetition, and the texts of the
  chunks, concatenated in the order of their indices, are \<open>T\<close> again: nothing is
  dropped, duplicated or reordered.
\<close>

theorem splitEveryN_roundtrip:
  assumes "0 < S"
  shows "\<exists>r. splitEveryN T S = Inr r \<and>
           map index (chunks r) = map int [0..<length (chunks r)] \<and>
           concat (map chunk (sort_key index (chunks r))) = T"
proof -
  let ?cs = "chunksFrom (nat S) 0 T"
  have "sort_key index ?cs = ?cs"
    by (rule sort_key_id_if_sorted) (rule sorted_chunksFrom)
  moreover have "map index ?cs = map int [0..<length ?cs]"
    using chunksFrom_indices [of "nat S" 0 T] by simp
  ultimately show ?thesis
    using assms by (simp add: splitEveryN_def Let_def concat_chunksFrom)
qed

theorem splitEveryN_roundtrip_witness:
  "(0::int) < 3 \<and>
   (\<exists>r. splitEveryN ''ABCDEFGHIJ'' 3 = Inr r \<and>
      map index (chunks r) = [0, 1, 2, 3] \<and>
      map chunk (chunks r) = [''ABC'', ''DEF'', ''GHI'', ''J''] \<and>
      concat (map chunk (sort_key index (chunks r))) = ''ABCDEFGHIJ'')"
proof -
  from splitEveryN_roundtrip [of 3 "''ABCDEFGHIJ''"]
  obtain r where r: "splitEveryN ''ABCDEFGHIJ'' 3 = Inr r"
    and s: "concat (map chunk (sort_key index (chunks r))) = ''ABCDEFGHIJ''"
    by auto
  from r have "map index (chunks r) = [0, 1, 2, 3]"
    and "map chunk (chunks r) = [''ABC'', ''DEF'', ''GHI'', ''J'']"
    by (auto simp: splitEveryN_def Let_def)
  with r s show ?thesis by simp
qed

section \<open>Facts about the operations\<close>

subsection \<open>Queries and the cache\<close>

lemma cacheSet_fields [simp]:
  "bookRepository (cacheSet env op s k v ttl) = bookRepository s"
  "bookChunkRepository (cacheSet env op s k v ttl) = bookChunkRepository s"
  "nextId (cacheSet env op s k v ttl) = nextId s"
  "issued (cacheSet env op s k v ttl) = issued s @ [CacheSetCall k ttl]"
  by (simp_all add: cacheSet_def Let_def)

lemma cacheSet_cache:
  "cacheManager (cacheSet env op s k v ttl) =
     (if fails env op then cacheManager s
      else (cacheManager s)(k \<mapsto> \<lparr>entry_value = v, entry_ttl = ttl\<rparr>))"
  by (simp add: cacheSet_def Let_def)

lemma findOneChunk_cacheSet [simp]:
  "findOneChunk (cacheSet env op s k v ttl) bid page key = findOneChunk s bid page key"
  by (simp add: findOneChunk_def split: option.splits)

lemma storedChunks_cacheSet [simp]:
  "storedChunks (cacheSet env op s k v ttl) bid = storedChunks s bid"
  by (simp add: storedChunks_def)

lemma findOneChunk_SomeD:
  assumes "findOneChunk s bid page key = Some c"
  shows "\<exists>r \<in> set (bookChunkRepository s). row_book r = bid \<and> row_index r = page"
  using assms
  by (auto simp: findOneChunk_def find_Some_iff split: option.splits)

lemma findOneChunk_book:
  assumes "findOneChunk s bid page key = Some c"
  shows "chunk_book c \<in> set (bookRepository s) \<and> book_id (chunk_book c) = bid \<and>
         apiKey (book_user (chunk_book c)) = key \<and> chunk_index c = page"
  using assms
  by (auto simp: findOneChunk_def find_Some_iff split: option.splits)

lemma findOneChunk_no_rows:
  assumes "storedChunks s bid = []"
  shows "findOneChunk s bid page key = None"
proof -
  from assms have "find (\<lambda>r. row_book r = bid \<and> row_index r = page) (bookChunkRepository s) = None"
    by (auto simp: storedChunks_def filter_empty_conv find_None_iff)
  then show ?thesis by (simp add: findOneChunk_def split: option.splits)
qed


lemma filter_fresh_rows:
  assumes "\<forall>r \<in> set rows. row_book r < n"
  shows "filter (\<lambda>r. row_book r = n) rows = []"
  using assms by (induction rows) auto



subsection \<open>The phases of getPageByBookId\<close>


lemma lookupChunk_rows:
  "bookChunkRepository (fst (lookupChunk env s bid page key)) = bookChunkRepository s"
  "nextId (fst (lookupChunk env s bid page key)) = nextId s"
  by (auto simp: lookupChunk_def split: option.splits)



lemma saveProgress_fields:
  "bookChunkRepository (fst (saveProgress env s bid page c sv)) = bookChunkRepository s"
  "cacheManager (fst (saveProgress env s bid page c sv)) = cacheManager s"
  "nextId (fst (saveProgress env s bid page c sv)) = nextId s"
  "map book_id (bookRepository (fst (saveProgress env s bid page c sv))) =
     map book_id (bookRepository s)"
  "map totalIndex (bookRepository (fst (saveProgress env s bid page c sv))) =
     map totalIndex (bookRepository s)"
  by (simp_all add: saveProgress_def Let_def o_def)

lemma saveProgress_books:
  assumes "b' \<in> set (bookRepository (fst (saveProgress env s bid page c sv)))"
  shows "\<exists>b \<in> set (bookRepository s). book_id b = book_id b' \<and> totalIndex b = totalIndex b'"
  using assms by (auto simp: saveProgress_def Let_def split: if_splits)



lemma saveProgress_Inl:
  "snd (saveProgress env s bid page c sv) =
     (if page \<noteq> lastIndex (chunk_book c) \<and> sv \<and> fails env BookUpdate
      then Inl (StoreError BookUpdate) else Inr ())"
  by (simp add: saveProgress_def Let_def)



lemma readAhead_rows:
  "bookChunkRepository (fst (readAhead env s bid page key)) = bookChunkRepository s"
  "nextId (fst (readAhead env s bid page key)) = nextId s"
  by (auto simp: readAhead_def split: option.splits)




lemma getPageByBookId_phases:
  assumes "lookupChunk env s bid page key = (s1, Inr (Some c))"
    and "saveProgress env s1 bid page c sv = (s2, r2)"
  shows "getPageByBookId env s bid page key sv =
           (case r2 of
              Inl e \<Rightarrow> (s2, Inl e)
            | Inr u \<Rightarrow>
                (case readAhead env s2 bid page key of
                   (s3, Inl e) \<Rightarrow> (s3, Inl e)
                 | (s3, Inr u) \<Rightarrow> (s3, Inr (Some (pageView c page)))))"
  using assms by (simp add: getPageByBookId_def split: sum.splits)

text \<open>A property that each phase of \<^verbatim>\<open>getPageByBookId\<close> keeps is kept by the call.\<close>

lemma getPageByBookId_keeps:
  assumes "P s"
    and "\<And>s. P s \<Longrightarrow> P (fst (lookupChunk env s bid page key))"
    and "\<And>s c. P s \<Longrightarrow> P (fst (saveProgress env s bid page c sv))"
    and "\<And>s. P s \<Longrightarrow> P (fst (readAhead env s bid page key))"
  shows "P (fst (getPageByBookId env s bid page key sv))"
proof -
  obtain s1 r1 where l: "lookupChunk env s bid page key = (s1, r1)" by force
  have p1: "P s1" using assms(2) [OF assms(1)] l by simp
  show ?thesis
  proof (cases r1)
    case (Inl e)
    with l p1 show ?thesis by (simp add: getPageByBookId_def)
  next
    case (Inr found)
    show ?thesis
    proof (cases found)
      case None
      with l p1 Inr show ?thesis by (simp add: getPageByBookId_def)
    next
      case (Some c)
      obtain s2 r2 where p: "saveProgress env s1 bid page c sv = (s2, r2)" by force
      have p2: "P s2" using assms(3) [OF p1, of c] p by simp
      obtain s3 r3 where a: "readAhead env s2 bid page key = (s3, r3)" by force
      have p3: "P s3" using assms(4) [OF p2] a by simp
      from l Inr Some p a p2 p3 show ?thesis
        by (simp add: getPageByBookId_def split: sum.splits)
    qed
  qed
qed


lemma getPageByBookId_hit:
  assumes "\<not> fails env CacheGet" and "cacheManager s (bid, page) = Some e"
  shows "snd (getPageByBookId env s bid page key sv) =
           (if page \<noteq> lastIndex (chunk_book (entry_value e)) \<and> sv \<and> fails env BookUpdate
              then Inl (StoreError BookUpdate)
            else if fails env NextCacheGet then Inl (StoreError NextCacheGet)
            else if cacheManager s (bid, page + 1) = None \<and> fails env NextGetChunk
              then Inl (StoreError NextGetChunk)
            else Inr (Some (pageView (entry_value e) page)))"
proof -
  have l: "lookupChunk env s bid page key = (s, Inr (Some (entry_value e)))"
    using assms by (simp add: lookupChunk_def)
  obtain s2 r2 where p: "saveProgress env s bid page (entry_value e) sv = (s2, r2)" by force
  have r2: "r2 = (if page \<noteq> lastIndex (chunk_book (entry_value e)) \<and> sv \<and> fails env BookUpdate
      then Inl (StoreError BookUpdate) else Inr ())"
    using saveProgress_Inl [of env s bid page "entry_value e" sv] p by simp
  have c2: "cacheManager s2 = cacheManager s"
    using saveProgress_fields(2) [of env s bid page "entry_value e" sv] p by simp
  show ?thesis
    using getPageByBookId_phases [OF l p] r2 c2
    by (auto simp: readAhead_def split: option.splits prod.splits)
qed


lemma getPageByBookId_rows:
  "bookChunkRepository (fst (getPageByBookId env s bid page key sv)) = bookChunkRepository s"
  "nextId (fst (getPageByBookId env s bid page key sv)) = nextId s"
proof -
  obtain s1 r1 where l: "lookupChunk env s bid page key = (s1, r1)" by force
  have s1: "bookChunkRepository s1 = bookChunkRepository s" "nextId s1 = nextId s"
    using lookupChunk_rows [of env s bid page key] l by simp_all
  have "bookChunkRepository (fst (getPageByBookId env s bid page key sv)) = bookChunkRepository s \<and>
        nextId (fst (getPageByBookId env s bid page key sv)) = nextId s"
  proof (cases r1)
    case (Inl e)
    with l s1 show ?thesis by (simp add: getPageByBookId_def)
  next
    case (Inr found)
    show ?thesis
    proof (cases found)
      case None
      with l s1 Inr show ?thesis by (simp add: getPageByBookId_def)
    next
      case (Some c)
      obtain s2 r2 where p: "saveProgress env s1 bid page c sv = (s2, r2)" by force
      have s2: "bookChunkRepository s2 = bookChunkRepository s" "nextId s2 = nextId s"
        using saveProgress_fields(1,3) [of env s1 bid page c sv] p s1 by simp_all
      obtain s3 r3 where a: "readAhead env s2 bid page key = (s3, r3)" by force
      have s3: "bookChunkRepository s3 = bookChunkRepository s" "nextId s3 = nextId s"
        using readAhead_rows [of env s2 bid page key] a s2 by simp_all
      from l Inr Some p a s2 s3 show ?thesis
        by (simp add: getPageByBookId_def split: sum.splits)
    qed
  qed
  then show "bookChunkRepository (fst (getPageByBookId env s bid page key sv)) = bookChunkRepository s"
    and "nextId (fst (getPageByBookId env s bid page key sv)) = nextId s"
    by simp_all
qed

lemma issuedBy_append [simp]: "issued s' = issued s @ xs \<Longrightarrow> issuedBy s s' = xs"
  by (simp add: issuedBy_def)



subsection \<open>createBook and deleteBookById\<close>

text \<open>What a successful \<^verbatim>\<open>createBook\<close> leaves in the store.\<close>

lemma createBook_InrD:
  assumes "createBook env s payload = (s1, Inr D)"
  shows "\<exists>cs. cs = chunksFrom (nat (chunkSize (new_user payload))) 0 (bookText payload) \<and>
           0 < chunkSize (new_user payload) \<and> D = nextId s \<and> nextId s1 = Suc (nextId s) \<and>
           cacheManager s1 = cacheManager s \<and>
           bookRepository s1 = bookRepository s @
             [\<lparr>book_id = D, title = new_title payload, author = new_author payload,
               totalIndex = int (length cs), lastIndex = defaultLastIndex env,
               book_user = new_user payload\<rparr>] \<and>
           bookChunkRepository s1 = bookChunkRepository s @
             map (\<lambda>c. \<lparr>row_book = D, row_index = index c, row_text = chunk c\<rparr>) cs"
  using assms
  by (auto simp: createBook_def splitEveryN_def Let_def split: if_splits)

lemma createBook_rows:
  assumes "bid < nextId s"
  shows "storedChunks (fst (createBook env s payload)) bid = storedChunks s bid"
    and "bid < nextId (fst (createBook env s payload))"
  using assms
  by (auto simp: createBook_def storedChunks_def Let_def o_def split: sum.splits)

lemma deleteBookById_TrueD:
  assumes "deleteBookById env s bid key = (s', Inr (Some b, True))"
  shows "cacheManager s' = cacheManager s"
    and "bookChunkRepository s' = filter (\<lambda>r. row_book r \<noteq> bid) (bookChunkRepository s)"
    and "bookRepository s' = filter (\<lambda>x. book_id x \<noteq> book_id b) (bookRepository s)"
    and "find (\<lambda>b. book_id b = bid \<and> apiKey (book_user b) = key) (bookRepository s) = Some b"
  using assms
  by (auto simp: deleteBookById_def Let_def split: if_splits option.splits)

lemma deleteBookById_nextId [simp]:
  "nextId (fst (deleteBookById env s bid key)) = nextId s"
  by (simp add: deleteBookById_def Let_def split: option.splits)

lemma deleteBookById_rows:
  assumes "storedChunks s bid = []"
  shows "storedChunks (fst (deleteBookById env s bid' key)) bid = []"
  using assms
  by (auto simp: deleteBookById_def storedChunks_def Let_def filter_empty_conv
      split: option.splits)

section \<open>The invariant of the reachable states\<close>

lemma state_inv_initial: "state_inv initial"
  by (simp add: state_inv_def books_fresh_def rows_fresh_def cache_fresh_def initial_def)

lemma state_inv_createBook:
  assumes "state_inv s"
  shows "state_inv (fst (createBook env s payload))"
proof -
  from assms have fresh: "books_fresh s" and rows: "rows_fresh s" and cache: "cache_fresh s"
    by (simp_all add: state_inv_def)
  have "books_fresh (fst (createBook env s payload))"
    using fresh
    by (auto simp: createBook_def books_fresh_def Let_def less_Suc_eq split: sum.splits)
  moreover have "rows_fresh (fst (createBook env s payload))"
    using rows
    by (auto simp: createBook_def rows_fresh_def Let_def less_Suc_eq split: sum.splits)
  moreover have "cache_fresh (fst (createBook env s payload))"
    using cache
    by (auto simp: createBook_def cache_fresh_def Let_def less_Suc_eq split: sum.splits)
  ultimately show ?thesis by (simp add: state_inv_def)
qed

lemma state_inv_cacheSet:
  assumes "state_inv s" and "findOneChunk s bid page key = Some c"
  shows "state_inv (cacheSet env op s (bid, page) c ttl)"
proof -
  from assms(1) have fresh: "books_fresh s" and rows: "rows_fresh s" and cache: "cache_fresh s"
    by (simp_all add: state_inv_def)
  from findOneChunk_SomeD [OF assms(2)] rows have "bid < nextId s"
    by (auto simp: rows_fresh_def)
  then have "cache_fresh (cacheSet env op s (bid, page) c ttl)"
    using cache by (auto simp: cache_fresh_def cacheSet_cache split: if_splits)
  moreover have "books_fresh (cacheSet env op s (bid, page) c ttl)"
    using fresh by (simp add: books_fresh_def)
  moreover have "rows_fresh (cacheSet env op s (bid, page) c ttl)"
    using rows by (simp add: rows_fresh_def)
  ultimately show ?thesis by (simp add: state_inv_def)
qed

lemma state_inv_lookupChunk:
  assumes "state_inv s"
  shows "state_inv (fst (lookupChunk env s bid page key))"
  using assms state_inv_cacheSet [OF assms]
  by (auto simp: lookupChunk_def split: option.splits)

lemma state_inv_saveProgress:
  assumes "state_inv s"
  shows "state_inv (fst (saveProgress env s bid page c saveCurrentPage))"
proof -
  let ?s' = "fst (saveProgress env s bid page c saveCurrentPage)"
  from assms have fresh: "books_fresh s" and rows: "rows_fresh s" and cache: "cache_fresh s"
    by (simp_all add: state_inv_def)
  note old = saveProgress_books [of _ env s bid page c saveCurrentPage]
  have "books_fresh ?s'"
    using fresh old by (fastforce simp: books_fresh_def saveProgress_fields)
  moreover have "rows_fresh ?s'"
    using rows by (simp add: rows_fresh_def saveProgress_fields)
  moreover have "cache_fresh ?s'"
    using cache by (simp add: cache_fresh_def saveProgress_fields)
  ultimately show ?thesis by (simp add: state_inv_def)
qed

lemma state_inv_readAhead:
  assumes "state_inv s"
  shows "state_inv (fst (readAhead env s bid page key))"
  using assms state_inv_cacheSet [OF assms]
  by (auto simp: readAhead_def getChunk_def split: option.splits)

lemma state_inv_getPageByBookId:
  assumes "state_inv s"
  shows "state_inv (fst (getPageByBookId env s bid page key saveCurrentPage))"
  using assms
  by (rule getPageByBookId_keeps)
    (simp_all add: state_inv_lookupChunk state_inv_saveProgress state_inv_readAhead)

lemma state_inv_deleteBookById:
  assumes "state_inv s"
  shows "state_inv (fst (deleteBookById env s bid key))"
proof -
  from assms have fresh: "books_fresh s" and rows: "rows_fresh s" and cache: "cache_fresh s"
    by (simp_all add: state_inv_def)
  have "books_fresh (fst (deleteBookById env s bid key))"
    using fresh
    by (auto simp: deleteBookById_def books_fresh_def Let_def distinct_map_filter
        split: option.splits)
  moreover have "rows_fresh (fst (deleteBookById env s bid key))"
    using rows by (auto simp: deleteBookById_def rows_fresh_def Let_def split: option.splits)
  moreover have "cache_fresh (fst (deleteBookById env s bid key))"
    using cache by (auto simp: deleteBookById_def cache_fresh_def Let_def split: option.splits)
  ultimately show ?thesis by (simp add: state_inv_def)
qed

lemma state_inv_expire:
  assumes "state_inv s"
  shows "state_inv (s\<lparr>cacheManager := (cacheManager s)(k := None)\<rparr>)"
  using assms
  by (fastforce simp: state_inv_def books_fresh_def rows_fresh_def cache_fresh_def
      split: if_splits)

lemma reachable_state_inv: "reachable s \<Longrightarrow> state_inv s"
proof (induction rule: reachable.induct)
  case reachable_initial
  show ?case by (rule state_inv_initial)
next
  case (reachable_createBook s env payload)
  then show ?case by (simp add: state_inv_createBook)
next
  case (reachable_getPageByBookId s env bid page key saveCurrentPage)
  then show ?case by (simp add: state_inv_getPageByBookId)
next
  case (reachable_deleteBookById s env bid key)
  then show ?case by (simp add: state_inv_deleteBookById)
next
  case (reachable_expire s k)
  then show ?case by (simp add: state_inv_expire)
qed

lemma later_reachable:
  assumes "later s t" and "reachable s"
  shows "reachable t"
  using assms by (induction rule: later.induct) (auto intro: reachable.intros)

lemma later_no_rows:
  assumes "later s t" and "storedChunks s bid = []" and "bid < nextId s"
  shows "storedChunks t bid = [] \<and> bid < nextId t"
  using assms
proof (induction rule: later.induct)
  case (later_refl s)
  then show ?case by simp
next
  case (later_createBook s t env payload)
  then show ?case by (simp add: createBook_rows)
next
  case (later_getPageByBookId s t env bid' page key saveCurrentPage)
  then show ?case by (simp add: storedChunks_def getPageByBookId_rows)
next
  case (later_deleteBookById s t env bid' key)
  then show ?case by (simp add: deleteBookById_rows)
next
  case (later_expire s t k)
  then show ?case by (simp add: storedChunks_def)
qed

lemma storedChunks_fresh:
  assumes "state_inv s"
  shows "storedChunks s (nextId s) = []"
proof -
  from assms have "\<forall>r \<in> set (bookChunkRepository s). row_book r < nextId s"
    by (simp add: state_inv_def rows_fresh_def)
  then show ?thesis
    unfolding storedChunks_def by (rule filter_fresh_rows)
qed

lemma createBook_storedChunks:
  assumes "state_inv s" and "createBook env s payload = (s1, Inr D)"
  shows "storedChunks s1 D =
           map (\<lambda>c. \<lparr>row_book = D, row_index = index c, row_text = chunk c\<rparr>)
             (chunksFrom (nat (chunkSize (new_user payload))) 0 (bookText payload))"
proof -
  from createBook_InrD [OF assms(2)] have D: "D = nextId s"
    and rows: "bookChunkRepository s1 = bookChunkRepository s @
             map (\<lambda>c. \<lparr>row_book = D, row_index = index c, row_text = chunk c\<rparr>)
               (chunksFrom (nat (chunkSize (new_user payload))) 0 (bookText payload))"
    by auto
  from storedChunks_fresh [OF assms(1)] D
  have "filter (\<lambda>r. row_book r = D) (bookChunkRepository s) = []"
    by (simp add: storedChunks_def)
  then show ?thesis
    by (simp add: storedChunks_def rows o_def)
qed


section \<open>The invariant of an ingested document\<close>

lemma doc_inv_createBook:
  assumes "doc_inv D n s"
  shows "doc_inv D n (fst (createBook env s payload))"
  using assms
  by (auto simp: doc_inv_def createBook_def Let_def split: sum.splits)

lemma doc_inv_cacheSet:
  assumes "doc_inv D n s" and "findOneChunk s bid page key = Some c"
  shows "doc_inv D n (cacheSet env op s (bid, page) c ttl)"
proof -
  from findOneChunk_SomeD [OF assms(2)] obtain r
    where r: "r \<in> set (bookChunkRepository s)" "row_book r = bid" "row_index r = page"
    by blast
  from findOneChunk_book [OF assms(2)]
  have cb: "chunk_book c \<in> set (bookRepository s)" "book_id (chunk_book c) = bid"
    by simp_all
  have new: "0 \<le> page \<and> page < n \<and> totalIndex (chunk_book c) = n" if "bid = D"
    using that assms(1) r cb by (auto simp: doc_inv_def)
  show ?thesis
    using assms(1) new
    by (auto simp: doc_inv_def cacheSet_cache split: if_splits)
qed

lemma doc_inv_lookupChunk:
  assumes "doc_inv D n s"
  shows "doc_inv D n (fst (lookupChunk env s bid page key))"
  using assms doc_inv_cacheSet [OF assms]
  by (auto simp: lookupChunk_def split: option.splits)

lemma doc_inv_saveProgress:
  assumes "doc_inv D n s"
  shows "doc_inv D n (fst (saveProgress env s bid page c sv))"
proof -
  note old = saveProgress_books [of _ env s bid page c sv]
  show ?thesis
    using assms old
    by (fastforce simp: doc_inv_def saveProgress_fields)
qed

lemma doc_inv_readAhead:
  assumes "doc_inv D n s"
  shows "doc_inv D n (fst (readAhead env s bid page key))"
  using assms doc_inv_cacheSet [OF assms]
  by (auto simp: readAhead_def getChunk_def split: option.splits)

lemma doc_inv_getPageByBookId:
  assumes "doc_inv D n s"
  shows "doc_inv D n (fst (getPageByBookId env s bid page key sv))"
  using assms
  by (rule getPageByBookId_keeps)
    (simp_all add: doc_inv_lookupChunk doc_inv_saveProgress doc_inv_readAhead)

lemma doc_inv_deleteBookById:
  assumes "doc_inv D n s"
  shows "doc_inv D n (fst (deleteBookById env s bid key))"
  using assms
  by (auto simp: doc_inv_def deleteBookById_def Let_def split: option.splits)

lemma doc_inv_expire:
  assumes "doc_inv D n s"
  shows "doc_inv D n (s\<lparr>cacheManager := (cacheManager s)(k := None)\<rparr>)"
  using assms by (auto simp: doc_inv_def split: if_splits)

lemma later_doc_inv:
  assumes "later s t" and "doc_inv D n s"
  shows "doc_inv D n t"
  using assms
proof (induction rule: later.induct)
  case (later_refl s)
  then show ?case by simp
next
  case (later_createBook s t env payload)
  then show ?case by (simp add: doc_inv_createBook)
next
  case (later_getPageByBookId s t env bid page key saveCurrentPage)
  then show ?case by (simp add: doc_inv_getPageByBookId)
next
  case (later_deleteBookById s t env bid key)
  then show ?case by (simp add: doc_inv_deleteBookById)
next
  case (later_expire s t k)
  then show ?case by (simp add: doc_inv_expire)
qed

lemma doc_inv_ingested:
  assumes "state_inv s" and "createBook env s payload = (s1, Inr D)"
  shows "doc_inv D (int (length (storedChunks s1 D))) s1"
proof -
  let ?cs = "chunksFrom (nat (chunkSize (new_user payload))) 0 (bookText payload)"
  from assms(1) have fresh: "books_fresh s" and rows: "rows_fresh s" and cache: "cache_fresh s"
    by (simp_all add: state_inv_def)
  from createBook_InrD [OF assms(2)] have D: "D = nextId s"
    and s1: "nextId s1 = Suc (nextId s)" "cacheManager s1 = cacheManager s"
      "bookRepository s1 = bookRepository s @
             [\<lparr>book_id = D, title = new_title payload, author = new_author payload,
               totalIndex = int (length ?cs), lastIndex = defaultLastIndex env,
               book_user = new_user payload\<rparr>]"
      "bookChunkRepository s1 = bookChunkRepository s @
             map (\<lambda>c. \<lparr>row_book = D, row_index = index c, row_text = chunk c\<rparr>) ?cs"
    by auto
  have n: "length (storedChunks s1 D) = length ?cs"
    by (simp add: createBook_storedChunks [OF assms])
  have idx: "\<And>c. c \<in> set ?cs \<Longrightarrow> 0 \<le> index c \<and> index c < int (length ?cs)"
    using chunksFrom_index [of _ "nat (chunkSize (new_user payload))" 0 "bookText payload"]
    by fastforce
  show ?thesis
    unfolding doc_inv_def n
  proof (intro conjI)
    show "D < nextId s1" by (simp add: s1 D)
    show "\<forall>b \<in> set (bookRepository s1). book_id b = D \<longrightarrow> totalIndex b = int (length ?cs)"
      using fresh D by (auto simp: s1 books_fresh_def)
    show "\<forall>r \<in> set (bookChunkRepository s1).
        row_book r = D \<longrightarrow> 0 \<le> row_index r \<and> row_index r < int (length ?cs)"
      using rows D idx by (auto simp: s1 rows_fresh_def)
    show "\<forall>page e. cacheManager s1 (D, page) = Some e \<longrightarrow>
        0 \<le> page \<and> page < int (length ?cs) \<and>
        totalIndex (chunk_book (entry_value e)) = int (length ?cs)"
      using cache D by (auto simp: s1 cache_fresh_def)
  qed
qed


lemma doc_inv_out_of_range:
  assumes "doc_inv D n t" and "page < 0 \<or> n \<le> page"
  shows "cacheManager t (D, page) = None" and "findOneChunk t D page key = None"
proof -
  show "cacheManager t (D, page) = None"
  proof (rule ccontr)
    assume "cacheManager t (D, page) \<noteq> None"
    with assms(1) have "0 \<le> page \<and> page < n" by (auto simp: doc_inv_def)
    with assms(2) show False by simp
  qed
  show "findOneChunk t D page key = None"
  proof (rule ccontr)
    assume "findOneChunk t D page key \<noteq> None"
    then obtain c where "findOneChunk t D page key = Some c" by blast
    from findOneChunk_SomeD [OF this] assms(1) have "0 \<le> page \<and> page < n"
      by (auto simp: doc_inv_def)
    with assms(2) show False by simp
  qed
qed

section \<open>The scenario\<close>

lemma ingested_eq:
  "ingested =
     \<lparr>bookRepository =
        [\<lparr>book_id = 0, title = ''book.txt'', author = None, totalIndex = 4, lastIndex = 0,
          book_user = owner\<rparr>],
      bookChunkRepository =
        [\<lparr>row_book = 0, row_index = 0, row_text = ''ABC''\<rparr>,
         \<lparr>row_book = 0, row_index = 1, row_text = ''DEF''\<rparr>,
         \<lparr>row_book = 0, row_index = 2, row_text = ''GHI''\<rparr>,
         \<lparr>row_book = 0, row_index = 3, row_text = ''J''\<rparr>],
      cacheManager = Map.empty, nextId = 1,
      issued =
        [BookInsertCall ''book.txt'' 4,
         ChunkInsertCall
           [\<lparr>row_book = 0, row_index = 0, row_text = ''ABC''\<rparr>,
            \<lparr>row_book = 0, row_index = 1, row_text = ''DEF''\<rparr>,
            \<lparr>row_book = 0, row_index = 2, row_text = ''GHI''\<rparr>,
            \<lparr>row_book = 0, row_index = 3, row_text = ''J''\<rparr>]]\<rparr>"
  by (simp add: ingested_def createBook_def splitEveryN_def no_faults_def upload_def owner_def
      initial_def Let_def)

lemma createBook_upload: "createBook no_faults initial upload = (ingested, Inr 0)"
  unfolding ingested_def
  by (simp add: createBook_def splitEveryN_def no_faults_def upload_def owner_def
      initial_def Let_def)

lemma reachable_ingested: "reachable ingested"
  unfolding ingested_def by (intro reachable_createBook reachable_initial)

lemma later_after_read: "later ingested (after_read p)"
  unfolding after_read_def by (intro later_getPageByBookId later_refl)

lemma reachable_after_read: "reachable (after_read p)"
  unfolding after_read_def by (intro reachable_getPageByBookId reachable_ingested)

lemmas page_defs = getPageByBookId_def lookupChunk_def saveProgress_def readAhead_def
  findOneChunk_def getChunk_def cacheSet_def pageView_def

lemma no_faults_fields:
  "fails no_faults op = False" "defaultLastIndex no_faults = 0"
  "orderByUpdatedAt no_faults bs = bs"
  by (simp_all add: no_faults_def)

lemma storedChunks_ingested:
  "storedChunks ingested 0 =
     [\<lparr>row_book = 0, row_index = 0, row_text = ''ABC''\<rparr>,
      \<lparr>row_book = 0, row_index = 1, row_text = ''DEF''\<rparr>,
      \<lparr>row_book = 0, row_index = 2, row_text = ''GHI''\<rparr>,
      \<lparr>row_book = 0, row_index = 3, row_text = ''J''\<rparr>]"
  by (simp add: storedChunks_def ingested_eq)

lemma after_read_0_eq:
  "after_read 0 =
     ingested\<lparr>cacheManager :=
        [(0, 0) \<mapsto> \<lparr>entry_value = \<lparr>chunk_text = ''ABC'', chunk_index = 0,
             chunk_book = \<lparr>book_id = 0, title = ''book.txt'', author = None, totalIndex = 4,
               lastIndex = 0, book_user = owner\<rparr>\<rparr>, entry_ttl = Some 3600\<rparr>,
         (0, 1) \<mapsto> \<lparr>entry_value = \<lparr>chunk_text = ''DEF'', chunk_index = 1,
             chunk_book = \<lparr>book_id = 0, title = ''book.txt'', author = None, totalIndex = 4,
               lastIndex = 0, book_user = owner\<rparr>\<rparr>, entry_ttl = None\<rparr>],
       issued := issued ingested @ [CacheSetCall (0, 0) (Some 3600), CacheSetCall (0, 1) None]\<rparr>"
  by (simp add: after_read_def ingested_eq page_defs no_faults_def owner_def Let_def)

lemma later_half_deleted: "later ingested half_deleted"
  unfolding half_deleted_def by (intro later_deleteBookById later_after_read)

lemma deleteBookById_after_read:
  "deleteBookById no_faults (after_read 0) 0 ''owner-key'' =
     (deleted, Inr (Some \<lparr>book_id = 0, title = ''book.txt'', author = None, totalIndex = 4,
                          lastIndex = 0, book_user = owner\<rparr>, True))"
  unfolding deleted_def
  by (simp add: deleteBookById_def after_read_0_eq ingested_eq no_faults_fields owner_def Let_def)

lemma cacheManager_deleted:
  "cacheManager deleted =
     [(0, 0) \<mapsto> \<lparr>entry_value = \<lparr>chunk_text = ''ABC'', chunk_index = 0,
             chunk_book = \<lparr>book_id = 0, title = ''book.txt'', author = None, totalIndex = 4,
               lastIndex = 0, book_user = owner\<rparr>\<rparr>, entry_ttl = Some 3600\<rparr>,
      (0, 1) \<mapsto> \<lparr>entry_value = \<lparr>chunk_text = ''DEF'', chunk_index = 1,
             chunk_book = \<lparr>book_id = 0, title = ''book.txt'', author = None, totalIndex = 4,
               lastIndex = 0, book_user = owner\<rparr>\<rparr>, entry_ttl = None\<rparr>]"
  using deleteBookById_TrueD(1) [OF deleteBookById_after_read]
  by (simp add: after_read_0_eq)

section \<open>Reading a page\<close>

subsection \<open>The total page count\<close>



subsection \<open>Pages out of range\<close>

text \<open>
  C8. For every document ingested by a successful \<^verbatim>\<open>createBook\<close>, with \<open>chunkCount\<close>
  chunks, in the state the ingestion leaves and in every later state, and for every
  caller: a page index below 0 or of at least \<open>chunkCount\<close> (so \<open>-1\<close> and \<open>chunkCount\<close>
  itself) is not found. The call leaves the state as it is and returns \<^verbatim>\<open>null\<close>; only a
  failing cache or store read makes it raise instead.
\<close>

theorem getPageByBookId_out_of_range:
  assumes "reachable s" and "createBook env s payload = (s1, Inr D)" and "later s1 t"
    and "page < 0 \<or> int (length (storedChunks s1 D)) \<le> page"
  shows "getPageByBookId env' t D page key saveCurrentPage =
           (t, if fails env' CacheGet then Inl (StoreError CacheGet)
               else if fails env' ChunkFindOne then Inl (StoreError ChunkFindOne)
               else Inr None)"
proof -
  have "state_inv s" using assms(1) by (rule reachable_state_inv)
  then have "doc_inv D (int (length (storedChunks s1 D))) s1"
    using assms(2) by (rule doc_inv_ingested)
  with assms(3) have "doc_inv D (int (length (storedChunks s1 D))) t"
    by (rule later_doc_inv)
  note miss = doc_inv_out_of_range [OF this assms(4)]
  show ?thesis
    by (simp add: getPageByBookId_def lookupChunk_def miss)
qed

theorem getPageByBookId_out_of_range_witness:
  "reachable initial \<and> createBook no_faults initial upload = (ingested, Inr 0) \<and>
   int (length (storedChunks ingested 0)) = 4 \<and>
   getPageByBookId no_faults ingested 0 4 ''owner-key'' True = (ingested, Inr None) \<and>
   getPageByBookId no_faults ingested 0 (- 1) ''owner-key'' True = (ingested, Inr None) \<and>
   later ingested half_deleted \<and>
   getPageByBookId no_faults half_deleted 0 4 ''owner-key'' True = (half_deleted, Inr None) \<and>
   getPageByBookId no_faults half_deleted 0 (- 1) ''owner-key'' True = (half_deleted, Inr None)"
proof -
  have n: "int (length (storedChunks ingested 0)) = 4"
    by (simp add: storedChunks_ingested)
  note now = getPageByBookId_out_of_range [OF reachable_initial createBook_upload later_refl,
      of _ no_faults "''owner-key''" True]
  note then' = getPageByBookId_out_of_range
      [OF reachable_initial createBook_upload later_half_deleted, of _ no_faults "''owner-key''" True]
  from now [of 4] now [of "- 1"] then' [of 4] then' [of "- 1"] n
  have "getPageByBookId no_faults ingested 0 4 ''owner-key'' True = (ingested, Inr None) \<and>
   getPageByBookId no_faults ingested 0 (- 1) ''owner-key'' True = (ingested, Inr None) \<and>
   getPageByBookId no_faults half_deleted 0 4 ''owner-key'' True = (half_deleted, Inr None) \<and>
   getPageByBookId no_faults half_deleted 0 (- 1) ''owner-key'' True = (half_deleted, Inr None)"
    by (simp add: no_faults_fields)
  with reachable_initial createBook_upload later_half_deleted n show ?thesis by simp
qed

subsection \<open>The caller's key and the cache\<close>

text \<open>
  C2 at a failing input: the owner reads page 2 of the uploaded book, which fills the
  cache; the same page is then returned to every caller, whatever the key, while with a
  cold cache a caller with another key is told that the page does not exist.
\<close>

theorem cached_page_ignores_apiKey:
  "apiKey owner \<noteq> ''intruder-key'' \<and>
   snd (getPageByBookId no_faults ingested 0 2 ''intruder-key'' True) = Inr None \<and>
   (\<forall>key. snd (getPageByBookId no_faults (after_read 2) 0 2 key True) =
      Inr (Some \<lparr>dto_text = ''GHI'', dto_title = ''book.txt'', bookId = 0, currentPage = 2,
                  totalPage = 4, userLanguageCode = ''en''\<rparr>))"
  by (simp add: after_read_def ingested_eq page_defs no_faults_def owner_def Let_def)

subsection \<open>Saving the progress\<close>




subsection \<open>The read-ahead\<close>

text \<open>
  C5, as the code has it. The read-ahead is awaited inside the call with nothing that
  catches its errors. When the requested chunk is found and the progress is saved, a
  failing cache lookup of page \<open>i + 1\<close>, or on a miss a failing fetch of that page from
  the store, fails the whole call; the page view is returned when these two succeed.
  Only the write of the read-ahead entry, which is not awaited, cannot fail the call.
\<close>

theorem getPageByBookId_readAhead_errors:
  assumes "lookupChunk env s bid page key = (s1, Inr (Some c))"
    and "saveProgress env s1 bid page c sv = (s2, Inr ())"
  shows "snd (getPageByBookId env s bid page key sv) =
           (if fails env NextCacheGet then Inl (StoreError NextCacheGet)
            else if cacheManager s2 (bid, page + 1) = None \<and> fails env NextGetChunk
              then Inl (StoreError NextGetChunk)
            else Inr (Some (pageView c page)))"
  using getPageByBookId_phases [OF assms]
  by (simp add: readAhead_def split: option.splits)

theorem getPageByBookId_readAhead_errors_witness:
  "snd (lookupChunk (failing NextCacheSet) ingested 0 0 ''owner-key'') =
     Inr (Some \<lparr>chunk_text = ''ABC'', chunk_index = 0,
                 chunk_book = \<lparr>book_id = 0, title = ''book.txt'', author = None,
                   totalIndex = 4, lastIndex = 0, book_user = owner\<rparr>\<rparr>) \<and>
   snd (getPageByBookId (failing NextCacheSet) ingested 0 0 ''owner-key'' True) =
     Inr (Some \<lparr>dto_text = ''ABC'', dto_title = ''book.txt'', bookId = 0, currentPage = 0,
                 totalPage = 4, userLanguageCode = ''en''\<rparr>)"
proof -
  let ?c = "\<lparr>chunk_text = ''ABC'', chunk_index = 0,
             chunk_book = \<lparr>book_id = 0, title = ''book.txt'', author = None,
               totalIndex = 4, lastIndex = 0, book_user = owner\<rparr>\<rparr>"
  let ?s1 = "cacheSet (failing NextCacheSet) CacheSet ingested (0, 0) ?c (Some 3600)"
  have l: "lookupChunk (failing NextCacheSet) ingested 0 0 ''owner-key'' = (?s1, Inr (Some ?c))"
    by (simp add: lookupChunk_def findOneChunk_def ingested_eq failing_def owner_def)
  have p: "saveProgress (failing NextCacheSet) ?s1 0 0 ?c True = (?s1, Inr ())"
    by (simp add: saveProgress_def)
  from getPageByBookId_readAhead_errors [OF l p] l show ?thesis
    by (simp add: failing_def pageView_def owner_def)
qed

text \<open>
  The fetch of the next page fails while the requested page 0 is found: the call raises
  and no page view is returned.
\<close>

theorem readAhead_error_counterexample:
  "snd (lookupChunk (failing NextGetChunk) ingested 0 0 ''owner-key'') =
     Inr (Some \<lparr>chunk_text = ''ABC'', chunk_index = 0,
                 chunk_book = \<lparr>book_id = 0, title = ''book.txt'', author = None,
                   totalIndex = 4, lastIndex = 0, book_user = owner\<rparr>\<rparr>) \<and>
   snd (getPageByBookId (failing NextGetChunk) ingested 0 0 ''owner-key'' True) =
     Inl (StoreError NextGetChunk)"
  by (simp add: ingested_eq page_defs failing_def owner_def Let_def)

subsection \<open>Time-to-live of the cache entries\<close>



section \<open>Ingestion and deletion\<close>

subsection \<open>createBook is not atomic\<close>

text \<open>
  C4, as the code has it. \<^verbatim>\<open>createBook\<close> issues two inserts, the book first and the
  chunks second, with nothing that undoes the first when the second fails. From a
  reachable state and for a text that splits: when the book insert fails nothing is
  stored; when both inserts succeed the book and one row for each chunk are stored; when
  only the chunk insert fails the call raises and the book record stays in the store
  without any chunk.
\<close>

theorem createBook_outcomes:
  assumes "reachable s"
    and "splitEveryN (bookText payload) (chunkSize (new_user payload)) = Inr sp"
  shows "(let (s', r) = createBook env s payload;
              rows = map (\<lambda>c. \<lparr>row_book = nextId s, row_index = index c, row_text = chunk c\<rparr>)
                       (chunks sp)
          in if fails env BookInsert then
               r = Inl (StoreError BookInsert) \<and> bookRepository s' = bookRepository s \<and>
               bookChunkRepository s' = bookChunkRepository s
             else
               (\<exists>b. bookRepository s' = bookRepository s @ [b] \<and> book_id b = nextId s) \<and>
               (if fails env ChunkInsert then
                  r = Inl (StoreError ChunkInsert) \<and> storedChunks s' (nextId s) = []
                else r = Inr (nextId s) \<and> storedChunks s' (nextId s) = rows))"
proof -
  have "storedChunks s (nextId s) = []"
    using assms(1) by (intro storedChunks_fresh reachable_state_inv)
  then have old: "filter (\<lambda>r. row_book r = nextId s) (bookChunkRepository s) = []"
    by (simp add: storedChunks_def)
  show ?thesis
    using assms(2) old
    by (simp add: createBook_def storedChunks_def Let_def o_def)
qed

theorem createBook_outcomes_witness:
  "reachable initial \<and>
   snd (createBook (failing ChunkInsert) initial upload) = Inl (StoreError ChunkInsert) \<and>
   (\<exists>b. bookRepository (fst (createBook (failing ChunkInsert) initial upload)) = [b] \<and>
        book_id b = 0) \<and>
   storedChunks (fst (createBook (failing ChunkInsert) initial upload)) 0 = []"
proof -
  have sp: "splitEveryN (bookText upload) (chunkSize (new_user upload)) =
      Inr \<lparr>chunks = chunksFrom 3 0 ''ABCDEFGHIJ'',
           split_totalIndex = int (length (chunksFrom 3 0 ''ABCDEFGHIJ'')) + 1\<rparr>"
    by (simp add: splitEveryN_def upload_def owner_def Let_def)
  from createBook_outcomes [OF reachable_initial sp, of "failing ChunkInsert"]
  have "snd (createBook (failing ChunkInsert) initial upload) = Inl (StoreError ChunkInsert) \<and>
    (\<exists>b. bookRepository (fst (createBook (failing ChunkInsert) initial upload)) = [b] \<and>
         book_id b = 0) \<and>
    storedChunks (fst (createBook (failing ChunkInsert) initial upload)) 0 = []"
    by (simp add: failing_def initial_def split: prod.splits)
  with reachable_initial show ?thesis by simp
qed

text \<open>
  The chunk insert fails: the call raises, and the store is left with the book record
  and none of its chunks. A reader finds the book and no page of it.
\<close>

theorem partial_document_counterexample:
  "snd (createBook (failing ChunkInsert) initial upload) = Inl (StoreError ChunkInsert) \<and>
   bookRepository (fst (createBook (failing ChunkInsert) initial upload)) =
     [\<lparr>book_id = 0, title = ''book.txt'', author = None, totalIndex = 4, lastIndex = 0,
       book_user = owner\<rparr>] \<and>
   bookChunkRepository (fst (createBook (failing ChunkInsert) initial upload)) = [] \<and>
   getBookById no_faults (fst (createBook (failing ChunkInsert) initial upload)) 0 ''owner-key'' \<noteq>
     Inr None \<and>
   snd (getPageByBookId no_faults (fst (createBook (failing ChunkInsert) initial upload))
          0 0 ''owner-key'' True) = Inr None"
  by (simp add: createBook_def splitEveryN_def failing_def upload_def owner_def initial_def
      getBookById_def page_defs no_faults_def Let_def)

subsection \<open>Deletion and the cache\<close>

text \<open>
  C3, as the code has it. \<^verbatim>\<open>deleteBookById\<close> removes the chunks and the book from the
  store and leaves the cache as it is. After a successful deletion, in the state it
  leaves and in every later state, no chunk of the document is stored. A page that has no
  cache entry is not found, for every page index and every caller. A page that still has
  its cache entry is read from that entry: the owner is returned its page view whenever
  the awaited calls of the read (the cache lookups, the update of \<^verbatim>\<open>lastIndex\<close> if one
  is issued, the fetch of the next page on a miss) succeed, and the first of them that
  fails makes the call raise.
\<close>

theorem deleteBookById_then_getPageByBookId:
  assumes "reachable s"
    and "deleteBookById env s bid key = (s', Inr (Some b, True))"
    and "later s' t"
  shows "cacheManager s' = cacheManager s \<and> storedChunks t bid = [] \<and>
         (\<forall>env' page key' sv.
            cacheManager t (bid, page) = None \<longrightarrow>
            getPageByBookId env' t bid page key' sv =
              (t, if fails env' CacheGet then Inl (StoreError CacheGet)
                  else if fails env' ChunkFindOne then Inl (StoreError ChunkFindOne)
                  else Inr None)) \<and>
         (\<forall>env' page sv e.
            cacheManager t (bid, page) = Some e \<longrightarrow>
            snd (getPageByBookId env' t bid page key sv) =
              (if fails env' CacheGet then Inl (StoreError CacheGet)
               else if page \<noteq> lastIndex (chunk_book (entry_value e)) \<and> sv \<and>
                       fails env' BookUpdate
                 then Inl (StoreError BookUpdate)
               else if fails env' NextCacheGet then Inl (StoreError NextCacheGet)
               else if cacheManager t (bid, page + 1) = None \<and> fails env' NextGetChunk
                 then Inl (StoreError NextGetChunk)
               else Inr (Some (pageView (entry_value e) page))))"
proof -
  note d = deleteBookById_TrueD [OF assms(2)]
  have "storedChunks s' bid = []"
    by (simp add: storedChunks_def d(2) filter_empty_conv)
  moreover
  have "books_fresh s"
    using reachable_state_inv [OF assms(1)] by (simp add: state_inv_def)
  moreover from d(4) have "b \<in> set (bookRepository s)" "book_id b = bid"
    by (auto simp: find_Some_iff)
  ultimately have "storedChunks s' bid = []" "bid < nextId s'"
    using deleteBookById_nextId [of env s bid key] assms(2)
    by (auto simp: books_fresh_def)
  from later_no_rows [OF assms(3) this] have none: "storedChunks t bid = []" by simp
  have miss: "getPageByBookId env' t bid page key' sv =
          (t, if fails env' CacheGet then Inl (StoreError CacheGet)
               else if fails env' ChunkFindOne then Inl (StoreError ChunkFindOne)
               else Inr None)"
    if "cacheManager t (bid, page) = None" for env' page key' sv
    using that findOneChunk_no_rows [OF none, of page key']
    by (simp add: getPageByBookId_def lookupChunk_def)
  have hit: "snd (getPageByBookId env' t bid page key sv) =
              (if fails env' CacheGet then Inl (StoreError CacheGet)
               else if page \<noteq> lastIndex (chunk_book (entry_value e)) \<and> sv \<and>
                       fails env' BookUpdate
                 then Inl (StoreError BookUpdate)
               else if fails env' NextCacheGet then Inl (StoreError NextCacheGet)
               else if cacheManager t (bid, page + 1) = None \<and> fails env' NextGetChunk
                 then Inl (StoreError NextGetChunk)
               else Inr (Some (pageView (entry_value e) page)))"
    if e: "cacheManager t (bid, page) = Some e" for env' page sv e
  proof (cases "fails env' CacheGet")
    case True
    then show ?thesis by (simp add: getPageByBookId_def lookupChunk_def)
  next
    case False
    from getPageByBookId_hit [OF False e, of key sv] False show ?thesis by simp
  qed
  from d(1) none miss hit show ?thesis by blast
qed

theorem deleteBookById_then_getPageByBookId_witness:
  "reachable (after_read 0) \<and>
   snd (deleteBookById no_faults (after_read 0) 0 ''owner-key'') =
     Inr (Some \<lparr>book_id = 0, title = ''book.txt'', author = None, totalIndex = 4,
                 lastIndex = 0, book_user = owner\<rparr>, True) \<and>
   storedChunks deleted 0 = [] \<and>
   (\<forall>key. snd (getPageByBookId no_faults deleted 0 3 key True) = Inr None) \<and>
   snd (getPageByBookId no_faults deleted 0 1 ''owner-key'' True) =
     Inr (Some \<lparr>dto_text = ''DEF'', dto_title = ''book.txt'', bookId = 0, currentPage = 1,
                 totalPage = 4, userLanguageCode = ''en''\<rparr>) \<and>
   snd (getPageByBookId (failing BookUpdate) deleted 0 1 ''owner-key'' True) =
     Inl (StoreError BookUpdate)"
proof -
  note inst = deleteBookById_then_getPageByBookId
    [OF reachable_after_read deleteBookById_after_read later_refl]
  have miss: "cacheManager deleted (0, 3) = None" "cacheManager deleted (0, 2) = None"
    by (simp_all add: cacheManager_deleted)
  let ?e = "\<lparr>entry_value = \<lparr>chunk_text = ''DEF'', chunk_index = 1,
             chunk_book = \<lparr>book_id = 0, title = ''book.txt'', author = None, totalIndex = 4,
               lastIndex = 0, book_user = owner\<rparr>\<rparr>, entry_ttl = None\<rparr>"
  have hit: "cacheManager deleted (0, 1) = Some ?e"
    by (simp add: cacheManager_deleted)
  from inst miss(1) have a: "\<forall>key. snd (getPageByBookId no_faults deleted 0 3 key True) = Inr None"
    by (simp add: no_faults_fields)
  from inst hit have "snd (getPageByBookId no_faults deleted 0 1 ''owner-key'' True) =
      Inr (Some (pageView (entry_value ?e) 1))"
    by (simp add: no_faults_fields)
  then have b: "snd (getPageByBookId no_faults deleted 0 1 ''owner-key'' True) =
     Inr (Some \<lparr>dto_text = ''DEF'', dto_title = ''book.txt'', bookId = 0, currentPage = 1,
                 totalPage = 4, userLanguageCode = ''en''\<rparr>)"
    by (simp add: pageView_def owner_def)
  from inst hit have c: "snd (getPageByBookId (failing BookUpdate) deleted 0 1 ''owner-key'' True) =
     Inl (StoreError BookUpdate)"
    by (simp add: failing_def)
  from inst have "storedChunks deleted 0 = []" by blast
  with a b c reachable_after_read deleteBookById_after_read show ?thesis by simp
qed

text \<open>
  The owner reads page 0, which caches pages 0 and 1, and deletes the book; the deletion
  succeeds and empties both tables, and page 0 is still returned to every caller.
\<close>

theorem deleted_page_served_counterexample:
  "snd (deleteBookById no_faults (after_read 0) 0 ''owner-key'') =
     Inr (Some \<lparr>book_id = 0, title = ''book.txt'', author = None, totalIndex = 4,
                 lastIndex = 0, book_user = owner\<rparr>, True) \<and>
   bookRepository deleted = [] \<and> bookChunkRepository deleted = [] \<and>
   (\<forall>key. snd (getPageByBookId no_faults deleted 0 0 key True) =
      Inr (Some \<lparr>dto_text = ''ABC'', dto_title = ''book.txt'', bookId = 0, currentPage = 0,
                  totalPage = 4, userLanguageCode = ''en''\<rparr>))"
  by (simp add: deleted_def after_read_def deleteBookById_def ingested_eq page_defs no_faults_def
      owner_def Let_def)

section \<open>The percentage of getBookById and getAll\<close>






end
